theory Spec2Isabelle
  imports Main
begin

section \<open>Python values and errors\<close>

text \<open>
  The notebook \<^verbatim>\<open>nbs/examples/LongHorizon_with_NHITS.ipynb\<close> is a straight-line
  Python script. Python integers are unbounded and are modelled by \<open>int\<close>; an exception is
  a value of \<open>py_error\<close>, returned on the left of a sum. \<open>Raised name\<close> is any
  exception class other than the four the modelled operations raise themselves.
\<close>

datatype py_error = OverflowError | KeyError | ValueError | IndexError | Raised string

section \<open>Binary64 arithmetic of the split sizes\<close>

text \<open>
  The fifth code cell computes
  \<^verbatim>\<open>
  n_time = len(Y_df.ds.unique())
  val_size = int(.2 * n_time)
  test_size = int(.2 * n_time)
  \<close>
  The product is a binary64 product: \<open>n_time\<close> is converted to a double (rounding to the
  nearest double, ties to even, OverflowError from 2^1024 on), multiplied by the double
  that the literal \<open>.2\<close> denotes (the product rounded the same way), and \<open>int\<close> truncates
  toward zero. A finite double is modelled exactly, as a sign and a dyadic rational
  \<open>numer / 2 ^ scale\<close> whose numerator has at most 53 significant bits. The products
  taken here, of 0.2 and a whole number below \<open>2 ^ 1024\<close>, are zero or in the normal range,
  where rounding the numerator to 53 significant bits is all of the IEEE rounding.
\<close>

function bit_length :: "int \<Rightarrow> nat" where
  "bit_length n = (if n \<le> 0 then 0 else Suc (bit_length (n div 2)))"
  by pat_completeness auto
termination
  by (relation "measure nat") auto

declare bit_length.simps [simp del]

definition round_half_even :: "int \<Rightarrow> nat \<Rightarrow> int" where
  "round_half_even m s =
     (let q = m div 2 ^ s; r = m mod 2 ^ s
      in if 2 * r > 2 ^ s \<or> (2 * r = 2 ^ s \<and> odd q) then q + 1 else q)"

definition round53 :: "int \<Rightarrow> int" where
  "round53 m =
     (if bit_length m \<le> 53 then m
      else round_half_even m (bit_length m - 53) * 2 ^ (bit_length m - 53))"

record binary64 =
  negative :: bool
  numer :: int
  scale :: nat

definition point2 :: binary64 where
  "point2 = \<lparr>negative = False, numer = 3602879701896397, scale = 54\<rparr>"

definition float_of_int :: "int \<Rightarrow> py_error + binary64" where
  "float_of_int n =
     (let m = round53 \<bar>n\<bar>
      in if 2 ^ 1024 \<le> m then Inl OverflowError
         else Inr \<lparr>negative = (n < 0), numer = m, scale = 0\<rparr>)"

definition float_mul :: "binary64 \<Rightarrow> binary64 \<Rightarrow> binary64" where
  "float_mul a b =
     \<lparr>negative = (negative a \<noteq> negative b),
      numer = round53 (numer a * numer b),
      scale = scale a + scale b\<rparr>"

definition int_of_float :: "binary64 \<Rightarrow> int" where
  "int_of_float a =
     (let t = numer a div 2 ^ scale a in if negative a then - t else t)"

definition split_size :: "int \<Rightarrow> py_error + int" where
  "split_size n_time =
     (case float_of_int n_time of
        Inl e \<Rightarrow> Inl e
      | Inr x \<Rightarrow> Inr (int_of_float (float_mul point2 x)))"

definition split_sizes :: "int \<Rightarrow> py_error + int \<times> int" where
  "split_sizes n_time =
     (case split_size n_time of
        Inl e \<Rightarrow> Inl e
      | Inr val_size \<Rightarrow>
          (case split_size n_time of
             Inl e \<Rightarrow> Inl e
           | Inr test_size \<Rightarrow> Inr (val_size, test_size)))"

section \<open>pandas series and frames, numpy arrays\<close>

text \<open>
  \<open>Y_df\<close> is a long-format frame: one row per series and timestamp, with the columns
  \<open>unique_id\<close>, \<open>ds\<close> and \<open>y\<close>. A frame is the list of its rows, each with its
  index label; a series is a list of labelled values. A value of the \<open>ds\<close> column, as
  loaded and as converted, is an integer, the way pandas stores a \<open>datetime64\<close>.
\<close>

type_synonym timestamp = int

record row =
  unique_id :: string
  ds :: timestamp
  y :: binary64

type_synonym 'a series = "(int \<times> 'a) list"

type_synonym 'r frame = "(int \<times> 'r) list"

definition column :: "('r \<Rightarrow> 'a) \<Rightarrow> 'r frame \<Rightarrow> 'a series" where
  "column f df = map (\<lambda>(i, r). (i, f r)) df"

definition select_rows :: "('r \<Rightarrow> bool) \<Rightarrow> 'r frame \<Rightarrow> 'r frame" where
  "select_rows p df = filter (\<lambda>(i, r). p r) df"

definition unique :: "'a series \<Rightarrow> 'a list" where
  "unique s = rev (remdups (rev (map snd s)))"

text \<open>
  \<open>s[k]\<close> on a series with an integer index looks the label \<open>k\<close> up and raises KeyError
  when no row has it. The labels of a series are taken to be distinct, as they are in a
  frame read from a file and in every selection of its rows.
\<close>

definition getitem :: "'a series \<Rightarrow> int \<Rightarrow> py_error + 'a" where
  "getitem s k = (case map_of s k of None \<Rightarrow> Inl KeyError | Some v \<Rightarrow> Inr v)"

text \<open>
  \<open>pd.to_datetime(s)\<close> converts the values of a series one by one, by a conversion that
  is the library's, and keeps the index; the first value that does not convert raises.
\<close>

fun traverse :: "('a \<Rightarrow> 'e + 'b) \<Rightarrow> 'a list \<Rightarrow> 'e + 'b list" where
  "traverse f [] = Inr []"
| "traverse f (x # xs) =
     (case f x of
        Inl e \<Rightarrow> Inl e
      | Inr v \<Rightarrow> (case traverse f xs of Inl e \<Rightarrow> Inl e | Inr vs \<Rightarrow> Inr (v # vs)))"

definition to_datetime ::
  "(timestamp \<Rightarrow> py_error + timestamp) \<Rightarrow> timestamp series \<Rightarrow> py_error + timestamp series" where
  "to_datetime conv s =
     (case traverse conv (map snd s) of
        Inl e \<Rightarrow> Inl e
      | Inr vs \<Rightarrow> Inr (zip (map fst s) vs))"

text \<open>
  \<open>df['ds'] = s\<close>, for a series \<open>s\<close> that has the frame's own index (the converted
  column): every row takes the value at its place.
\<close>

definition assign_ds :: "'z row_scheme frame \<Rightarrow> timestamp series \<Rightarrow> 'z row_scheme frame" where
  "assign_ds df s = map (\<lambda>((i, r), (j, v)). (i, r\<lparr>ds := v\<rparr>)) (zip df s)"

record 'a ndarray =
  shape :: "nat list"
  data :: "'a list"

definition series_values :: "'a series \<Rightarrow> 'a ndarray" where
  "series_values s = \<lparr>shape = [length s], data = map snd s\<rparr>"

text \<open>
  \<open>a.reshape(d0, d1, ...)\<close>, as numpy fixes the unknown dimension: at most one dimension
  may be negative; with one, the product of the others must be nonzero and divide the
  array's size; with none, the product must be the size. Otherwise ValueError. Sizes are
  taken to fit numpy's index type.
\<close>

definition reshape :: "'a ndarray \<Rightarrow> int list \<Rightarrow> py_error + 'a ndarray" where
  "reshape a newshape =
     (let s_original = int (prod_list (shape a));
          s_known = prod_list (filter (\<lambda>d. 0 \<le> d) newshape);
          n_unknown = length (filter (\<lambda>d. d < 0) newshape)
      in if 1 < n_unknown then Inl ValueError
         else if n_unknown = 1 then
           (if s_known = 0 \<or> s_original mod s_known \<noteq> 0 then Inl ValueError
            else Inr \<lparr>shape = map (\<lambda>d. nat (if d < 0 then s_original div s_known else d)) newshape,
                      data = data a\<rparr>)
         else if s_original \<noteq> s_known then Inl ValueError
         else Inr \<lparr>shape = map nat newshape, data = data a\<rparr>)"

text \<open>\<open>a[i, j, :]\<close> on a three-dimensional array; IndexError outside the first two axes.\<close>

definition ndarray_row :: "'a ndarray \<Rightarrow> int \<Rightarrow> int \<Rightarrow> py_error + 'a list" where
  "ndarray_row a i j =
     (case shape a of
        [d0, d1, d2] \<Rightarrow>
          if - int d0 \<le> i \<and> i < int d0 \<and> - int d1 \<le> j \<and> j < int d1
          then Inr (take d2 (drop ((nat (i mod int d0) * d1 + nat (j mod int d1)) * d2) (data a)))
          else Inl IndexError
      | _ \<Rightarrow> Inl IndexError)"

text \<open>\<open>xs[i]\<close> on a list: an index from \<open>-len(xs)\<close> up to \<open>len(xs) - 1\<close>, or IndexError.\<close>

definition list_getitem :: "'a list \<Rightarrow> int \<Rightarrow> py_error + 'a" where
  "list_getitem xs i =
     (if - int (length xs) \<le> i \<and> i < int (length xs)
      then Inr (xs ! nat (i mod int (length xs)))
      else Inl IndexError)"

text \<open>The frame \<open>cross_validation\<close> returns: one row per series, cutoff and forecast step.\<close>

record cv_row =
  cv_unique_id :: string
  cv_ds :: timestamp
  cutoff :: timestamp
  AutoNHITS :: binary64
  cv_y :: binary64

subsection \<open>What the notebook reads out of \<open>Y_df\<close> and \<open>fcst_df\<close>\<close>

definition n_time_of :: "'z row_scheme frame \<Rightarrow> int" where
  "n_time_of Y_df = int (length (unique (column ds Y_df)))"

definition ds_of_series :: "'z row_scheme frame \<Rightarrow> string \<Rightarrow> timestamp series" where
  "ds_of_series Y_df u_id = column ds (select_rows (\<lambda>r. unique_id r = u_id) Y_df)"

definition y_of_series :: "'z row_scheme frame \<Rightarrow> string \<Rightarrow> binary64 ndarray" where
  "y_of_series Y_df u_id = series_values (column y (select_rows (\<lambda>r. unique_id r = u_id) Y_df))"

definition n_series_of :: "'z row_scheme frame \<Rightarrow> int" where
  "n_series_of Y_df = int (length (unique (column unique_id Y_df)))"

section \<open>The search space\<close>

text \<open>
  The eighth code cell builds \<open>nhits_config\<close>, a dictionary from hyperparameter names to
  \<open>ray.tune\<close> domains. A dictionary value may be any Python object, so the values are a
  sum of tune domains and plain values.
\<close>

datatype pyval = PInt int | PFloat binary64 | PStr string | PList "pyval list"

datatype domain = Choice "pyval list" | Randint int int

datatype config_value = Domain domain | Plain pyval

definition nhits_config_dict :: "int \<Rightarrow> (string \<times> config_value) list" where
  "nhits_config_dict h =
     [(''learning_rate'',
         Domain (Choice [PFloat \<lparr>negative = False, numer = 4611686018427388, scale = 62\<rparr>])),
      (''max_steps'', Domain (Choice [PInt 1000])),
      (''input_size'', Domain (Choice [PInt (5 * h)])),
      (''batch_size'', Domain (Choice [PInt 7])),
      (''windows_batch_size'', Domain (Choice [PInt 256])),
      (''n_pool_kernel_size'',
         Domain (Choice [PList [PInt 2, PInt 2, PInt 2], PList [PInt 16, PInt 8, PInt 1]])),
      (''n_freq_downsample'',
         Domain (Choice [PList [PInt 168, PInt 24, PInt 1], PList [PInt 24, PInt 12, PInt 1],
                         PList [PInt 1, PInt 1, PInt 1]])),
      (''activation'', Domain (Choice [PStr ''ReLU''])),
      (''n_blocks'', Domain (Choice [PList [PInt 1, PInt 1, PInt 1]])),
      (''mlp_units'',
         Domain (Choice [PList [PList [PInt 512, PInt 512], PList [PInt 512, PInt 512],
                                PList [PInt 512, PInt 512]]])),
      (''interpolation_mode'', Domain (Choice [PStr ''linear''])),
      (''random_seed'', Domain (Randint 1 10))]"

fun is_domain :: "config_value \<Rightarrow> bool" where
  "is_domain (Domain d) = True"
| "is_domain (Plain v) = False"

fun is_choice :: "config_value \<Rightarrow> bool" where
  "is_choice (Domain (Choice vs)) = True"
| "is_choice v = False"

fun is_randint :: "config_value \<Rightarrow> bool" where
  "is_randint (Domain (Randint lo hi)) = True"
| "is_randint v = False"

section \<open>The notebook as a program\<close>

text \<open>
  Every call expression of the notebook goes to a library: \<open>Call module name\<close>, next to
  IPython's cell magics and shell escapes and the import statements. \<open>Local\<close> stands for
  a call of a function the notebook itself defines.
\<close>

datatype call = Magic string | Shell string | Import string | Call string string | Local string

text \<open>
  The libraries are a parameter. A call whose result the notebook computes with has a
  function of its own, which returns a value or raises; any other call is decided by
  \<open>lib_effect\<close>, from the calls made so far: \<open>Some e\<close> when it raises \<open>e\<close>.
\<close>

record ('m, 'f) world =
  lib_effect :: "call list \<Rightarrow> call \<Rightarrow> py_error option"
  lib_load :: "string \<Rightarrow> string \<Rightarrow> py_error + row frame"
  lib_to_datetime :: "timestamp \<Rightarrow> py_error + timestamp"
  lib_AutoNHITS :: "int \<Rightarrow> (string \<times> config_value) list \<Rightarrow> int \<Rightarrow> py_error + 'm"
  lib_NeuralForecast :: "'m list \<Rightarrow> string \<Rightarrow> py_error + 'f"
  lib_cross_validation ::
    "'f \<Rightarrow> row frame \<Rightarrow> int \<Rightarrow> int \<Rightarrow> int option \<Rightarrow> py_error + cv_row frame"
  lib_mae :: "binary64 ndarray \<Rightarrow> binary64 ndarray \<Rightarrow> py_error + binary64"
  lib_mse :: "binary64 ndarray \<Rightarrow> binary64 ndarray \<Rightarrow> py_error + binary64"

text \<open>
  The notebook's global variables, and the calls that have returned so far. In the order
  of the cells every variable is assigned before it is read, so a state holds a value for
  each of them and no read of an unbound name is modelled.
\<close>

record 'f state =
  Y_df :: "row frame"
  n_time :: int
  val_size :: int
  test_size :: int
  u_id :: string
  x_plot :: "timestamp series"
  y_plot :: "binary64 ndarray"
  x_val :: timestamp
  x_test :: timestamp
  horizon :: int
  nhits_config :: "(string \<times> config_value) list"
  fcst :: 'f
  fcst_df :: "cv_row frame"
  y_true :: "binary64 ndarray"
  y_hat :: "binary64 ndarray"
  n_series :: int
  series :: "string list"
  series_idx :: int
  trace :: "call list"

type_synonym ('m, 'f) stmt = "('m, 'f) world \<Rightarrow> 'f state \<Rightarrow> py_error + 'f state"

definition thn :: "'e + 'a \<Rightarrow> ('a \<Rightarrow> 'e + 'b) \<Rightarrow> 'e + 'b" where
  "thn r k = (case r of Inl e \<Rightarrow> Inl e | Inr v \<Rightarrow> k v)"

definition logged :: "call list \<Rightarrow> 'f state \<Rightarrow> 'f state" where
  "logged cs g = g\<lparr>trace := trace g @ cs\<rparr>"

text \<open>
  A library call \<open>c\<close> with outcome \<open>r\<close>: when it raises, the statement raises; when it
  returns \<open>v\<close>, the call is recorded and the rest of the statement \<open>k v\<close> runs.
\<close>

definition lib_call ::
  "call \<Rightarrow> py_error + 'a \<Rightarrow> ('a \<Rightarrow> 'f state \<Rightarrow> py_error + 'f state) \<Rightarrow> 'f state \<Rightarrow>
   py_error + 'f state" where
  "lib_call c r k g = (case r of Inl e \<Rightarrow> Inl e | Inr v \<Rightarrow> k v (logged [c] g))"

definition ext :: "('m, 'f) world \<Rightarrow> call \<Rightarrow> 'f state \<Rightarrow> py_error + 'f state" where
  "ext W c g =
     lib_call c (case lib_effect W (trace g) c of Some e \<Rightarrow> Inl e | None \<Rightarrow> Inr ())
       (\<lambda>_. Inr) g"

text \<open>Statements run in order; the first one that raises ends the run with its exception.\<close>

fun run_stmts :: "('m, 'f) stmt list \<Rightarrow> ('m, 'f) world \<Rightarrow> 'f state \<Rightarrow> py_error + 'f state" where
  "run_stmts [] W g = Inr g"
| "run_stmts (s # ss) W g = (case s W g of Inl e \<Rightarrow> Inl e | Inr g' \<Rightarrow> run_stmts ss W g')"

definition for_each :: "'a list \<Rightarrow> ('a \<Rightarrow> ('m, 'f) stmt list) \<Rightarrow> ('m, 'f) stmt" where
  "for_each xs body W g = run_stmts (concat (map body xs)) W g"

definition if_stmt :: "bool \<Rightarrow> ('m, 'f) stmt list \<Rightarrow> ('m, 'f) stmt" where
  "if_stmt b ss W g = (if b then run_stmts ss W g else Inr g)"

subsection \<open>The code cells\<close>

text \<open>
  \<^verbatim>\<open>
  %%capture
  !pip install neuralforecast datasetsforecast
  \<close>
  \<open>%%capture\<close> is a cell magic of IPython: it runs the statements of the cell and keeps
  what they print. What IPython does with an exception that has left the statements of a
  cell (it prints the traceback, under \<open>%%capture\<close> into the captured output) is
  IPython's, not the notebook's, and is not modelled: the run ends where a statement
  raises.
\<close>

definition cell_install :: "('m, 'f) stmt list" where
  "cell_install =
     [(\<lambda>W. ext W (Magic ''capture'')),
      (\<lambda>W. ext W (Shell ''pip install neuralforecast datasetsforecast''))]"

text \<open>The ten import statements of the second code cell, in order.\<close>

definition cell_imports :: "('m, 'f) stmt list" where
  "cell_imports =
     [(\<lambda>W. ext W (Import ''torch'')),
      (\<lambda>W. ext W (Import ''numpy'')),
      (\<lambda>W. ext W (Import ''pandas'')),
      (\<lambda>W. ext W (Import ''matplotlib.pyplot'')),
      (\<lambda>W. ext W (Import ''ray'')),
      (\<lambda>W. ext W (Import ''neuralforecast.auto'')),
      (\<lambda>W. ext W (Import ''neuralforecast.core'')),
      (\<lambda>W. ext W (Import ''neuralforecast.losses.pytorch'')),
      (\<lambda>W. ext W (Import ''neuralforecast.losses.numpy'')),
      (\<lambda>W. ext W (Import ''datasetsforecast.long_horizon''))]"

text \<open>
  \<^verbatim>\<open>
  import logging
  logging.getLogger("pytorch_lightning").setLevel(logging.WARNING)
  \<close>
\<close>

definition cell_logging :: "('m, 'f) stmt list" where
  "cell_logging =
     [(\<lambda>W. ext W (Import ''logging'')),
      (\<lambda>W g. thn (ext W (Call ''logging'' ''getLogger'') g)
                (ext W (Call ''logging'' ''Logger.setLevel'')))]"

text \<open>\<^verbatim>\<open>torch.cuda.is_available()\<close>\<close>

definition cell_cuda :: "('m, 'f) stmt list" where
  "cell_cuda = [(\<lambda>W. ext W (Call ''torch'' ''cuda.is_available''))]"

text \<open>
  \<^verbatim>\<open>
  Y_df, _, _ = LongHorizon.load(directory='./', group='ETTm2')
  Y_df['ds'] = pd.to_datetime(Y_df['ds'])
  n_time = len(Y_df.ds.unique())
  val_size = int(.2 * n_time)
  test_size = int(.2 * n_time)
  Y_df.groupby('unique_id').head(2)
  \<close>
\<close>

definition cell_load :: "('m, 'f) stmt list" where
  "cell_load =
     [(\<lambda>W g. lib_call (Call ''datasetsforecast.long_horizon'' ''LongHorizon.load'')
                (lib_load W ''./'' ''ETTm2'') (\<lambda>Y g. Inr (g\<lparr>Y_df := Y\<rparr>)) g),
      (\<lambda>W g. lib_call (Call ''pandas'' ''to_datetime'')
                (to_datetime (lib_to_datetime W) (column ds (Y_df g)))
                (\<lambda>s g. Inr (g\<lparr>Y_df := assign_ds (Y_df g) s\<rparr>)) g),
      (\<lambda>W g. Inr (logged [Call ''pandas'' ''Series.unique'', Call ''builtins'' ''len'']
                (g\<lparr>n_time := n_time_of (Y_df g)\<rparr>))),
      (\<lambda>W g. lib_call (Call ''builtins'' ''int'') (split_size (n_time g))
                (\<lambda>v g. Inr (g\<lparr>val_size := v\<rparr>)) g),
      (\<lambda>W g. lib_call (Call ''builtins'' ''int'') (split_size (n_time g))
                (\<lambda>v g. Inr (g\<lparr>test_size := v\<rparr>)) g),
      (\<lambda>W g. thn (ext W (Call ''pandas'' ''DataFrame.groupby'') g)
                (ext W (Call ''pandas'' ''GroupBy.head'')))]"

text \<open>
  \<^verbatim>\<open>
  u_id = 'HUFL'
  x_plot = pd.to_datetime(Y_df[Y_df.unique_id==u_id].ds)
  y_plot = Y_df[Y_df.unique_id==u_id].y.values
  x_val = x_plot[n_time - val_size - test_size]
  x_test = x_plot[n_time - test_size]
  fig = plt.figure(figsize=(10, 5))
  fig.tight_layout()
  plt.plot(x_plot, y_plot)
  plt.xlabel('Date', fontsize=17)
  plt.ylabel('HUFL [15 min temperature]', fontsize=17)
  plt.axvline(x_val, color='black', linestyle='-.')
  plt.axvline(x_test, color='black', linestyle='-.')
  plt.text(x_val, 5, '  Validation', fontsize=12)
  plt.text(x_test, 5, '  Test', fontsize=12)
  plt.grid()
  plt.show()
  plt.close()
  \<close>
\<close>

definition cell_plot_data :: "('m, 'f) stmt list" where
  "cell_plot_data =
     [(\<lambda>W g. Inr (g\<lparr>u_id := ''HUFL''\<rparr>)),
      (\<lambda>W g. lib_call (Call ''pandas'' ''to_datetime'')
                (to_datetime (lib_to_datetime W) (ds_of_series (Y_df g) (u_id g)))
                (\<lambda>s g. Inr (g\<lparr>x_plot := s\<rparr>)) g),
      (\<lambda>W g. Inr (g\<lparr>y_plot := y_of_series (Y_df g) (u_id g)\<rparr>)),
      (\<lambda>W g. thn (getitem (x_plot g) (n_time g - val_size g - test_size g))
                (\<lambda>t. Inr (g\<lparr>x_val := t\<rparr>))),
      (\<lambda>W g. thn (getitem (x_plot g) (n_time g - test_size g))
                (\<lambda>t. Inr (g\<lparr>x_test := t\<rparr>))),
      (\<lambda>W. ext W (Call ''matplotlib.pyplot'' ''figure'')),
      (\<lambda>W. ext W (Call ''matplotlib.figure'' ''Figure.tight_layout'')),
      (\<lambda>W. ext W (Call ''matplotlib.pyplot'' ''plot'')),
      (\<lambda>W. ext W (Call ''matplotlib.pyplot'' ''xlabel'')),
      (\<lambda>W. ext W (Call ''matplotlib.pyplot'' ''ylabel'')),
      (\<lambda>W. ext W (Call ''matplotlib.pyplot'' ''axvline'')),
      (\<lambda>W. ext W (Call ''matplotlib.pyplot'' ''axvline'')),
      (\<lambda>W. ext W (Call ''matplotlib.pyplot'' ''text'')),
      (\<lambda>W. ext W (Call ''matplotlib.pyplot'' ''text'')),
      (\<lambda>W. ext W (Call ''matplotlib.pyplot'' ''grid'')),
      (\<lambda>W. ext W (Call ''matplotlib.pyplot'' ''show'')),
      (\<lambda>W. ext W (Call ''matplotlib.pyplot'' ''close''))]"

text \<open>\<^verbatim>\<open>Y_df.unique_id.unique()\<close>\<close>

definition cell_series_ids :: "('m, 'f) stmt list" where
  "cell_series_ids = [(\<lambda>W g. Inr (logged [Call ''pandas'' ''Series.unique''] g))]"

text \<open>
  \<^verbatim>\<open>
  horizon = 96 # 24hrs = 4 * 15 min.
  nhits_config = {
     "learning_rate": tune.choice([1e-3]),
     "max_steps": tune.choice([1000]),
     "input_size": tune.choice([5 * horizon]),
     "batch_size": tune.choice([7]),
     "windows_batch_size": tune.choice([256]),
     "n_pool_kernel_size": tune.choice([[2, 2, 2], [16, 8, 1]]),
     "n_freq_downsample": tune.choice([[168, 24, 1], [24, 12, 1], [1, 1, 1]]),
     "activation": tune.choice(['ReLU']),
     "n_blocks":  tune.choice([[1, 1, 1]]),
     "mlp_units":  tune.choice([[[512, 512], [512, 512], [512, 512]]]),
     "interpolation_mode": tune.choice(['linear']),
     "random_seed": tune.randint(1, 10),
  }
  \<close>
  The twelve \<open>tune\<close> calls are made in the order of the entries; the domain objects they
  return are the values of \<open>nhits_config_dict\<close>.
\<close>

definition cell_config :: "('m, 'f) stmt list" where
  "cell_config =
     [(\<lambda>W g. Inr (g\<lparr>horizon := 96\<rparr>)),
      (\<lambda>W g. thn (run_stmts (replicate 11 (\<lambda>W. ext W (Call ''ray.tune'' ''choice''))
                               @ [\<lambda>W. ext W (Call ''ray.tune'' ''randint'')]) W g)
                (\<lambda>g. Inr (g\<lparr>nhits_config := nhits_config_dict (horizon g)\<rparr>)))]"

text \<open>
  \<^verbatim>\<open>
  %%capture
  fcst = NeuralForecast(
      models=[AutoNHITS(h=horizon, config=nhits_config, num_samples=5)],
      freq='15min')
  fcst_df = fcst.cross_validation(df=Y_df, val_size=val_size,
                                  test_size=test_size, n_windows=None)
  \<close>
\<close>

definition cell_fit :: "('m, 'f) stmt list" where
  "cell_fit =
     [(\<lambda>W. ext W (Magic ''capture'')),
      (\<lambda>W g. lib_call (Call ''neuralforecast.auto'' ''AutoNHITS'')
                (lib_AutoNHITS W (horizon g) (nhits_config g) 5)
                (\<lambda>m g'. lib_call (Call ''neuralforecast.core'' ''NeuralForecast'')
                           (lib_NeuralForecast W [m] ''15min'')
                           (\<lambda>f g. Inr (g\<lparr>fcst := f\<rparr>)) g') g),
      (\<lambda>W g. lib_call (Call ''neuralforecast.core'' ''NeuralForecast.cross_validation'')
                (lib_cross_validation W (fcst g) (Y_df g) (val_size g) (test_size g) None)
                (\<lambda>d g. Inr (g\<lparr>fcst_df := d\<rparr>)) g)]"

text \<open>\<^verbatim>\<open>fcst.models[0].results.get_best_result().config\<close>\<close>

definition cell_best_config :: "('m, 'f) stmt list" where
  "cell_best_config = [(\<lambda>W. ext W (Call ''ray.tune'' ''ResultGrid.get_best_result''))]"

text \<open>
  \<^verbatim>\<open>
  y_true = fcst_df.y.values
  y_hat = fcst_df['AutoNHITS'].values
  n_series = len(Y_df.unique_id.unique())
  y_true = y_true.reshape(n_series, -1, horizon)
  y_hat = y_hat.reshape(n_series, -1, horizon)
  print('Parsed results')
  print('2. y_true.shape (n_series, n_windows, n_time_out):\t', y_true.shape)
  print('2. y_hat.shape  (n_series, n_windows, n_time_out):\t', y_hat.shape)
  \<close>
\<close>

definition cell_parse :: "('m, 'f) stmt list" where
  "cell_parse =
     [(\<lambda>W g. Inr (g\<lparr>y_true := series_values (column cv_y (fcst_df g))\<rparr>)),
      (\<lambda>W g. Inr (g\<lparr>y_hat := series_values (column AutoNHITS (fcst_df g))\<rparr>)),
      (\<lambda>W g. Inr (logged [Call ''pandas'' ''Series.unique'', Call ''builtins'' ''len'']
                (g\<lparr>n_series := n_series_of (Y_df g)\<rparr>))),
      (\<lambda>W g. lib_call (Call ''numpy'' ''ndarray.reshape'')
                (reshape (y_true g) [n_series g, - 1, horizon g])
                (\<lambda>a g. Inr (g\<lparr>y_true := a\<rparr>)) g),
      (\<lambda>W g. lib_call (Call ''numpy'' ''ndarray.reshape'')
                (reshape (y_hat g) [n_series g, - 1, horizon g])
                (\<lambda>a g. Inr (g\<lparr>y_hat := a\<rparr>)) g),
      (\<lambda>W. ext W (Call ''builtins'' ''print'')),
      (\<lambda>W. ext W (Call ''builtins'' ''print'')),
      (\<lambda>W. ext W (Call ''builtins'' ''print''))]"

text \<open>
  \<^verbatim>\<open>
  fig, axs = plt.subplots(nrows=3, ncols=1, figsize=(10, 11))
  fig.tight_layout()
  series = ['HUFL','HULL','LUFL','LULL','MUFL','MULL','OT']
  series_idx = 3
  for idx, w_idx in enumerate([200, 300, 400]):
    axs[idx].plot(y_true[series_idx, w_idx,:],label='True')
    axs[idx].plot(y_hat[series_idx, w_idx,:],label='Forecast')
    axs[idx].grid()
    axs[idx].set_ylabel(series[series_idx]+f' window {w_idx}', fontsize=17)
    if idx==2:
      axs[idx].set_xlabel('Forecast Horizon', fontsize=17)
  plt.legend()
  plt.show()
  plt.close()
  \<close>
\<close>

definition plot_window :: "nat \<times> int \<Rightarrow> ('m, 'f) stmt list" where
  "plot_window = (\<lambda>(idx, w_idx).
     [(\<lambda>W g. thn (ndarray_row (y_true g) (series_idx g) w_idx)
                (\<lambda>_. ext W (Call ''matplotlib.axes'' ''Axes.plot'') g)),
      (\<lambda>W g. thn (ndarray_row (y_hat g) (series_idx g) w_idx)
                (\<lambda>_. ext W (Call ''matplotlib.axes'' ''Axes.plot'') g)),
      (\<lambda>W. ext W (Call ''matplotlib.axes'' ''Axes.grid'')),
      (\<lambda>W g. thn (list_getitem (series g) (series_idx g))
                (\<lambda>_. ext W (Call ''matplotlib.axes'' ''Axes.set_ylabel'') g)),
      if_stmt (idx = 2) [\<lambda>W. ext W (Call ''matplotlib.axes'' ''Axes.set_xlabel'')]])"

definition cell_plot_forecasts :: "('m, 'f) stmt list" where
  "cell_plot_forecasts =
     [(\<lambda>W. ext W (Call ''matplotlib.pyplot'' ''subplots'')),
      (\<lambda>W. ext W (Call ''matplotlib.figure'' ''Figure.tight_layout'')),
      (\<lambda>W g. Inr (g\<lparr>series := [''HUFL'', ''HULL'', ''LUFL'', ''LULL'', ''MUFL'', ''MULL'', ''OT'']\<rparr>)),
      (\<lambda>W g. Inr (g\<lparr>series_idx := 3\<rparr>)),
      (\<lambda>W g. lib_call (Call ''builtins'' ''enumerate'') (Inr (List.enumerate 0 [200, 300, 400]))
                (\<lambda>xs. for_each xs plot_window W) g),
      (\<lambda>W. ext W (Call ''matplotlib.pyplot'' ''legend'')),
      (\<lambda>W. ext W (Call ''matplotlib.pyplot'' ''show'')),
      (\<lambda>W. ext W (Call ''matplotlib.pyplot'' ''close''))]"

text \<open>
  \<^verbatim>\<open>
  print('MAE: ', mae(y_hat, y_true))
  print('MSE: ', mse(y_hat, y_true))
  \<close>
\<close>

definition cell_metrics :: "('m, 'f) stmt list" where
  "cell_metrics =
     [(\<lambda>W g. lib_call (Call ''neuralforecast.losses.numpy'' ''mae'')
                (lib_mae W (y_hat g) (y_true g)) (\<lambda>_. ext W (Call ''builtins'' ''print'')) g),
      (\<lambda>W g. lib_call (Call ''neuralforecast.losses.numpy'' ''mse'')
                (lib_mse W (y_hat g) (y_true g)) (\<lambda>_. ext W (Call ''builtins'' ''print'')) g)]"

text \<open>The last code cell is empty.\<close>

definition cell_empty :: "('m, 'f) stmt list" where
  "cell_empty = []"

subsection \<open>The notebook\<close>

text \<open>The cells of the notebook file, in order; the text of a markdown cell is prose.\<close>

datatype ('m, 'f) cell = Markdown | Code "('m, 'f) stmt list"

definition notebook :: "('m, 'f) cell list" where
  "notebook =
     [Markdown, Markdown, Markdown, Markdown,
      Code cell_install, Code cell_imports, Code cell_logging,
      Markdown,
      Code cell_cuda,
      Markdown,
      Code cell_load, Code cell_plot_data, Code cell_series_ids,
      Markdown,
      Code cell_config,
      Markdown, Markdown, Markdown, Markdown,
      Code cell_fit,
      Markdown,
      Code cell_best_config, Code cell_parse, Code cell_plot_forecasts,
      Markdown,
      Code cell_metrics,
      Markdown,
      Code cell_empty]"

fun is_code :: "('m, 'f) cell \<Rightarrow> bool" where
  "is_code Markdown = False"
| "is_code (Code ss) = True"

fun cell_body :: "('m, 'f) cell \<Rightarrow> ('m, 'f) stmt list" where
  "cell_body Markdown = []"
| "cell_body (Code ss) = ss"



subsection \<open>The calls of each code cell, in the order they are made\<close>




















section \<open>The statements of the specification\<close>






section \<open>A small data set\<close>

text \<open>
  Seven series of five timestamps each, in the layout of the ETTm2 frame (the rows of a
  series together, \<open>HUFL\<close> first, a range index), and a cross-validation frame of
  \<open>7 * 401 * 96\<close> rows.
\<close>

definition demo_Y_df :: "row frame" where
  "demo_Y_df =
     map (\<lambda>(i, r). (int i, r))
       (List.enumerate 0
          (concat (map (\<lambda>u. map (\<lambda>t. \<lparr>unique_id = u, ds = t, y = point2\<rparr>) [0, 1, 2, 3, 4])
             [''HUFL'', ''HULL'', ''LUFL'', ''LULL'', ''MUFL'', ''MULL'', ''OT''])))"

definition demo_fcst_df :: "cv_row frame" where
  "demo_fcst_df =
     map (\<lambda>(i, r). (int i, r))
       (List.enumerate 0
          (replicate 269472
             \<lparr>cv_unique_id = ''HUFL'', cv_ds = 0, cutoff = 0, AutoNHITS = point2, cv_y = point2\<rparr>))"




section \<open>Rounding lemmas\<close>

lemma bit_length_pos: "0 < n \<Longrightarrow> 0 < bit_length n"
  by (subst bit_length.simps) simp

lemma bit_length_bounds:
  "0 < n \<Longrightarrow> 2 ^ (bit_length n - 1) \<le> n \<and> n < 2 ^ bit_length n"
proof (induction n rule: bit_length.induct)
  case (1 n)
  show ?case
  proof (cases "n = 1")
    case True
    have "bit_length 1 = Suc (bit_length 0)"
      by (subst bit_length.simps) simp
    also have "bit_length 0 = 0"
      by (subst bit_length.simps) simp
    finally show ?thesis using True by simp
  next
    case False
    with "1.prems" have h: "0 < n div 2" by simp
    from "1.prems" have nle: "\<not> n \<le> 0" by simp
    from "1.IH" [OF nle h]
    have ih: "2 ^ (bit_length (n div 2) - 1) \<le> n div 2" "n div 2 < 2 ^ bit_length (n div 2)"
      by simp_all
    have b: "bit_length n = Suc (bit_length (n div 2))"
      using nle by (subst bit_length.simps) simp
    from bit_length_pos [OF h] obtain k where k: "bit_length (n div 2) = Suc k"
      by (cases "bit_length (n div 2)") simp_all
    from ih k have "2 * 2 ^ k \<le> 2 * (n div 2)" by simp
    also have "\<dots> \<le> n" by simp
    finally have lo: "2 ^ (bit_length n - 1) \<le> n" using b k by simp
    from ih have "n div 2 + 1 \<le> 2 ^ bit_length (n div 2)" by simp
    then have "2 * (n div 2) + 2 \<le> 2 * 2 ^ bit_length (n div 2)" by simp
    moreover have "n < 2 * (n div 2) + 2" by simp
    ultimately have "n < 2 ^ bit_length n" using b by simp
    with lo show ?thesis by simp
  qed
qed

lemma bit_length_le: "0 \<le> n \<Longrightarrow> n < 2 ^ k \<Longrightarrow> bit_length n \<le> k"
proof (rule ccontr)
  assume n: "0 \<le> n" "n < 2 ^ k" and "\<not> bit_length n \<le> k"
  then have k: "k \<le> bit_length n - 1" by simp
  then have "0 < bit_length n" using \<open>\<not> bit_length n \<le> k\<close> by simp
  then have "0 < n" using n(1) by (cases "n = 0") (simp_all add: bit_length.simps)
  from bit_length_bounds [OF this] have "2 ^ (bit_length n - 1) \<le> n" by simp
  moreover have "(2::int) ^ k \<le> 2 ^ (bit_length n - 1)"
    using k by (simp add: power_increasing)
  ultimately show False using n(2) by linarith
qed

lemma round_half_even_bounds:
  assumes "0 \<le> m"
  shows "m div 2 ^ s \<le> round_half_even m s"
    and "round_half_even m s \<le> m div 2 ^ s + 1"
    and "2 * (round_half_even m s * 2 ^ s) \<le> 2 * m + 2 ^ s"
proof -
  let ?q = "m div 2 ^ s" and ?r = "m mod 2 ^ s"
  show "?q \<le> round_half_even m s" "round_half_even m s \<le> ?q + 1"
    by (simp_all add: round_half_even_def Let_def)
  have m: "m = ?q * 2 ^ s + ?r" by (rule div_mult_mod_eq [symmetric])
  have r: "0 \<le> ?r" by simp
  show "2 * (round_half_even m s * 2 ^ s) \<le> 2 * m + 2 ^ s"
  proof (cases "2 * ?r > 2 ^ s \<or> (2 * ?r = 2 ^ s \<and> odd ?q)")
    case True
    then have up: "round_half_even m s = ?q + 1" and h: "2 ^ s \<le> 2 * ?r"
      by (auto simp: round_half_even_def Let_def)
    have "2 * ((?q + 1) * 2 ^ s) = 2 * (?q * 2 ^ s) + 2 * 2 ^ s"
      by (simp add: algebra_simps)
    also have "\<dots> \<le> 2 * (?q * 2 ^ s) + 2 * ?r + 2 ^ s" using h by simp
    also have "\<dots> = 2 * m + 2 ^ s" using m by linarith
    finally show ?thesis using up by simp
  next
    case False
    then have dn: "round_half_even m s = ?q"
      by (auto simp: round_half_even_def Let_def)
    have "2 * (?q * 2 ^ s) \<le> 2 * m" using m r by linarith
    moreover have "(0::int) \<le> 2 ^ s" by simp
    ultimately show ?thesis unfolding dn by linarith
  qed
qed

lemma round53_upper: 
  assumes "0 \<le> m"
  shows "2 ^ 53 * round53 m \<le> (2 ^ 53 + 1) * m"
proof (cases "bit_length m \<le> 53")
  case True
  then show ?thesis using assms by (simp add: round53_def algebra_simps)
next
  case False
  define s where "s = bit_length m - 53"
  from False have b: "bit_length m - 1 = s + 52" by (simp add: s_def)
  from False have "0 < bit_length m" by simp
  then have "0 < m" using assms by (cases "m = 0") (simp_all add: bit_length.simps)
  from bit_length_bounds [OF this] b have lo: "(2::int) ^ (s + 52) \<le> m" by simp
  have R: "round53 m = round_half_even m s * 2 ^ s"
    using False by (simp add: round53_def s_def)
  from round_half_even_bounds(3) [OF assms, of s]
  have "2 * round53 m \<le> 2 * m + 2 ^ s" using R by simp
  then have "2 ^ 52 * (2 * round53 m) \<le> 2 ^ 52 * (2 * m + 2 ^ s)"
    by (rule mult_left_mono) simp
  also have "\<dots> = 2 ^ 53 * m + 2 ^ (s + 52)" by (simp add: power_add algebra_simps)
  also have "\<dots> \<le> 2 ^ 53 * m + m" using lo by simp
  finally show ?thesis by (simp add: algebra_simps)
qed

lemma round53_lower:
  assumes "0 < m"
  shows "2 ^ (bit_length m - 1) \<le> round53 m"
proof (cases "bit_length m \<le> 53")
  case True
  then show ?thesis using bit_length_bounds [OF assms] by (simp add: round53_def)
next
  case False
  define s where "s = bit_length m - 53"
  from False have b: "bit_length m - 1 = 52 + s" by (simp add: s_def)
  have R: "round53 m = round_half_even m s * 2 ^ s"
    using False by (simp add: round53_def s_def)
  from bit_length_bounds [OF assms] b have lo: "(2::int) ^ 52 * 2 ^ s \<le> m"
    by (simp add: power_add)
  have "(2::int) ^ 52 = (2 ^ 52 * 2 ^ s) div 2 ^ s" by simp
  also have "\<dots> \<le> m div 2 ^ s" using lo by (rule zdiv_mono1) simp
  also have "\<dots> \<le> round_half_even m s"
    using round_half_even_bounds(1) [of m s] assms by simp
  finally have "(2::int) ^ 52 * 2 ^ s \<le> round_half_even m s * 2 ^ s"
    by (rule mult_right_mono) simp
  then show ?thesis using R b by (simp add: power_add)
qed

lemma round53_le_pow:
  assumes "0 \<le> m"
  shows "round53 m \<le> 2 ^ bit_length m"
proof (cases "bit_length m \<le> 53")
  case True
  show ?thesis
  proof (cases "m = 0")
    case True
    then show ?thesis by (simp add: round53_def bit_length.simps)
  next
    case False
    with assms have "0 < m" by simp
    from bit_length_bounds [OF this] True show ?thesis by (simp add: round53_def)
  qed
next
  case False
  define s where "s = bit_length m - 53"
  from False have b: "bit_length m = 53 + s" by (simp add: s_def)
  from False have "0 < bit_length m" by simp
  then have "0 < m" using assms by (cases "m = 0") (simp_all add: bit_length.simps)
  from bit_length_bounds [OF this] b have hi: "m < 2 ^ 53 * 2 ^ s"
    by (simp add: power_add)
  have R: "round53 m = round_half_even m s * 2 ^ s"
    using False by (simp add: round53_def s_def)
  have "m div 2 ^ s < 2 ^ 53"
  proof (rule ccontr)
    assume "\<not> m div 2 ^ s < 2 ^ 53"
    then have "(2::int) ^ 53 \<le> m div 2 ^ s" by simp
    then have "(2::int) ^ 53 * 2 ^ s \<le> m div 2 ^ s * 2 ^ s"
      by (rule mult_right_mono) simp
    also have "\<dots> \<le> m div 2 ^ s * 2 ^ s + m mod 2 ^ s" by simp
    also have "\<dots> = m" by (rule div_mult_mod_eq)
    finally show False using hi by simp
  qed
  then have "round_half_even m s \<le> 2 ^ 53"
    using round_half_even_bounds(2) [of m s] assms by linarith
  then have "round_half_even m s * 2 ^ s \<le> 2 ^ 53 * 2 ^ s"
    by (rule mult_right_mono) simp
  then show ?thesis using R b by (simp add: power_add)
qed

lemma round53_nonneg: "0 \<le> m \<Longrightarrow> 0 \<le> round53 m"
proof (cases "m = 0")
  case True
  then show ?thesis by (simp add: round53_def bit_length.simps)
next
  case False
  assume "0 \<le> m"
  with False have "0 < m" by simp
  from round53_lower [OF this] have "(2::int) ^ (bit_length m - 1) \<le> round53 m" .
  moreover have "(0::int) \<le> 2 ^ (bit_length m - 1)" by simp
  ultimately show ?thesis by linarith
qed

section \<open>The split sizes\<close>

lemma split_size_value:
  assumes "0 \<le> n" and "split_size n = Inr v"
  shows "v = round53 (3602879701896397 * round53 n) div 2 ^ 54"
  using assms
  by (auto simp: split_size_def float_of_int_def float_mul_def int_of_float_def point2_def
      Let_def split: if_splits)

lemma split_size_total:
  assumes "0 \<le> n" and "n < 2 ^ 1023"
  shows "\<exists>v. split_size n = Inr v"
proof -
  have "bit_length n \<le> 1023" using assms by (rule bit_length_le)
  then have "(2::int) ^ bit_length n \<le> 2 ^ 1023" by (rule power_increasing) simp
  with round53_le_pow [OF assms(1)] have "round53 n \<le> 2 ^ 1023" by linarith
  moreover have "(2::int) ^ 1023 < 2 ^ 1024" by (simp add: power_strict_increasing)
  ultimately have "\<not> 2 ^ 1024 \<le> round53 n" by linarith
  then show ?thesis
    using assms(1) by (simp add: split_size_def float_of_int_def Let_def)
qed

lemma split_size_upper:
  assumes "0 \<le> n" and "split_size n = Inr v"
  shows "2 ^ 160 * v \<le> (2 ^ 53 + 1) * ((2 ^ 53 + 1) * (3602879701896397 * n))"
proof -
  define N where "N = round53 n"
  define R where "R = round53 (3602879701896397 * N)"
  have N0: "0 \<le> N" unfolding N_def using assms(1) by (rule round53_nonneg)
  then have P0: "0 \<le> 3602879701896397 * N" by simp
  have v: "v = R div 2 ^ 54"
    unfolding R_def N_def using assms by (rule split_size_value)
  have h1: "2 ^ 53 * N \<le> (2 ^ 53 + 1) * n"
    unfolding N_def using assms(1) by (rule round53_upper)
  have h2: "2 ^ 53 * R \<le> (2 ^ 53 + 1) * (3602879701896397 * N)"
    unfolding R_def using P0 by (rule round53_upper)
  have "R div 2 ^ 54 * 2 ^ 54 \<le> R div 2 ^ 54 * 2 ^ 54 + R mod 2 ^ 54" by simp
  also have "\<dots> = R" by (rule div_mult_mod_eq)
  finally have h3: "2 ^ 54 * v \<le> R" using v by (simp add: mult.commute)
  from h1 h2 h3 show ?thesis by simp
qed

lemma split_size_nonneg:
  assumes "0 \<le> n" and "split_size n = Inr v"
  shows "0 \<le> v"
proof -
  have "0 \<le> round53 (3602879701896397 * round53 n)"
    using assms(1) by (intro round53_nonneg mult_nonneg_nonneg) simp
  then show ?thesis
    unfolding split_size_value [OF assms] by (simp add: pos_imp_zdiv_nonneg_iff)
qed

lemma split_size_double_le:
  assumes "0 \<le> n" and "split_size n = Inr v"
  shows "2 * v \<le> n"
  using split_size_upper [OF assms] assms(1) by simp

lemma split_size_small:
  assumes "0 \<le> n" and "n \<le> 4" and "split_size n = Inr v"
  shows "v = 0"
  using split_size_upper [OF assms(1,3)] split_size_nonneg [OF assms(1,3)] assms(2) by simp

lemma split_size_ge_one:
  assumes "5 \<le> n" and "split_size n = Inr v"
  shows "1 \<le> v"
proof -
  define N where "N = round53 n"
  define R where "R = round53 (3602879701896397 * N)"
  from assms(1) have n0: "0 \<le> n" and npos: "0 < n" by simp_all
  have v: "v = R div 2 ^ 54"
    unfolding R_def N_def using n0 assms(2) by (rule split_size_value)
  have N5: "5 \<le> N"
  proof (cases "bit_length n \<le> 53")
    case True
    then show ?thesis using assms(1) by (simp add: N_def round53_def)
  next
    case False
    then have "(2::int) ^ 53 \<le> 2 ^ (bit_length n - 1)"
      by (intro power_increasing) simp_all
    with round53_lower [OF npos] show ?thesis unfolding N_def by simp
  qed
  then have P: "2 ^ 54 \<le> 3602879701896397 * N" by simp
  then have Ppos: "0 < 3602879701896397 * N" by simp
  have "\<not> bit_length (3602879701896397 * N) \<le> 54"
  proof
    assume "bit_length (3602879701896397 * N) \<le> 54"
    then have "(2::int) ^ bit_length (3602879701896397 * N) \<le> 2 ^ 54"
      by (intro power_increasing) simp_all
    with bit_length_bounds [OF Ppos] P show False by linarith
  qed
  then have "(2::int) ^ 54 \<le> 2 ^ (bit_length (3602879701896397 * N) - 1)"
    by (intro power_increasing) simp_all
  with round53_lower [OF Ppos] have "2 ^ 54 \<le> R" unfolding R_def by linarith
  then have "(2 ^ 54) div 2 ^ 54 \<le> R div 2 ^ 54" by (rule zdiv_mono1) simp
  then show ?thesis using v by simp
qed

lemma split_sizes_Inr:
  "split_sizes n = Inr (v, t) \<longleftrightarrow> split_size n = Inr v \<and> t = v"
  by (auto simp: split_sizes_def split: sum.splits)

text \<open>
  The literal \<open>.2\<close> is read as the double nearest to 1/5. With significand \<open>m\<close> at
  scale 55 that double is \<open>m = 7205759403792794\<close>, which is \<open>point2\<close>: every other
  significand is further from 1/5.
\<close>

lemma point2_nearest:
  "2 * numer point2 = 7205759403792794 \<and> Suc (scale point2) = 55 \<and>
   \<bar>5 * 7205759403792794 - 2 ^ 55\<bar> = (2::int) \<and>
   (\<forall>m::int. m \<noteq> 7205759403792794 \<longrightarrow> 2 < \<bar>5 * m - 2 ^ 55\<bar>)"
  by (simp add: point2_def) arith

text \<open>
  Claim C8. For every nonnegative \<open>n_time\<close>, the split sizes
  \<open>val_size = int(.2 * n_time)\<close> and \<open>test_size = int(.2 * n_time)\<close> are equal and
  \<open>val_size + test_size \<le> n_time\<close>, so the training region
  \<open>n_time - val_size - test_size\<close> is nonnegative. The two sizes are computed (no
  OverflowError from the conversion to a double) for every \<open>n_time\<close> below \<open>2 ^ 1023\<close>,
  which covers every length \<open>len\<close> can return.
\<close>

theorem split_sizes_partition:
  assumes "0 \<le> n"
  shows "(\<forall>v t. split_sizes n = Inr (v, t) \<longrightarrow>
            v = t \<and> v + t \<le> n \<and>
            0 \<le> n - v - t) \<and>
         (n < 2 ^ 1023 \<longrightarrow> (\<exists>v. split_sizes n = Inr (v, v)))"
proof (intro conjI allI impI)
  fix v t
  assume "split_sizes n = Inr (v, t)"
  then have s: "split_size n = Inr v" and e: "t = v"
    by (simp_all add: split_sizes_Inr)
  from split_size_double_le [OF assms s] have d: "2 * v \<le> n" .
  show "v = t" using e by simp
  show "v + t \<le> n" using d e by simp
  show "0 \<le> n - v - t" using d e by simp
next
  assume "n < 2 ^ 1023"
  with assms obtain v where "split_size n = Inr v"
    using split_size_total by blast
  then have "split_sizes n = Inr (v, v)" by (simp add: split_sizes_Inr)
  then show "\<exists>v. split_sizes n = Inr (v, v)" ..
qed

theorem split_sizes_partition_witness:
  "(0::int) \<le> 57600 \<and> split_sizes 57600 = Inr (11520, 11520) \<and>
   (11520::int) + 11520 \<le> 57600 \<and> (0::int) \<le> 57600 - 11520 - 11520"
proof -
  have ev: "split_sizes 57600 = Inr (11520, 11520)" by code_simp
  have h: "(0::int) \<le> 57600" by simp
  from split_sizes_partition [OF h] ev show ?thesis by simp
qed

section \<open>The split markers of the plot\<close>

lemma getitem_range:
  assumes "map fst s = [0..n - 1]"
  shows "(\<exists>v. getitem s k = Inr v) \<longleftrightarrow> 0 \<le> k \<and> k < n"
proof -
  have "map_of s k = None \<longleftrightarrow> k \<notin> set (map fst s)"
    by (simp add: map_of_eq_None_iff)
  also have "\<dots> \<longleftrightarrow> \<not> (0 \<le> k \<and> k < n)" unfolding assms by auto
  finally show ?thesis by (auto simp: getitem_def split: option.splits)
qed

lemma getitem_KeyError: "getitem s k = Inl e \<Longrightarrow> e = KeyError"
  by (auto simp: getitem_def split: option.splits)

text \<open>
  Claim C9. The lookup \<open>x_test = x_plot[n_time - test_size]\<close> on the \<open>n_time\<close>
  timestamps at positions \<open>0 .. n_time - 1\<close> returns a value exactly when
  \<open>test_size \<ge> 1\<close>, that is exactly when \<open>n_time \<ge> 5\<close>; for \<open>1 \<le> n_time \<le> 4\<close> the
  test size is 0, the lookup addresses position \<open>n_time\<close>, one past the last timestamp,
  and raises KeyError.
\<close>

theorem x_test_in_range_iff:
  assumes idx: "map fst xs = [0..n - 1]"
    and n0: "0 \<le> n"
    and sz: "split_sizes n = Inr (v, t)"
  shows "((\<exists>d. getitem xs (n - t) = Inr d) \<longleftrightarrow> 1 \<le> t) \<and>
         (1 \<le> t \<longleftrightarrow> 5 \<le> n) \<and>
         (1 \<le> n \<and> n \<le> 4 \<longrightarrow>
            t = 0 \<and> n - t = n \<and>
            getitem xs (n - t) = Inl KeyError)"
proof -
  from sz have s: "split_size n = Inr t"
    by (simp add: split_sizes_Inr)
  have t0: "0 \<le> t" using n0 s by (rule split_size_nonneg)
  have t2: "2 * t \<le> n" using n0 s by (rule split_size_double_le)
  have a: "(\<exists>d. getitem xs (n - t) = Inr d) \<longleftrightarrow> 1 \<le> t"
    unfolding getitem_range [OF idx] using t0 t2 by auto
  have b: "1 \<le> t \<longleftrightarrow> 5 \<le> n"
  proof
    assume "1 \<le> t"
    show "5 \<le> n"
    proof (rule ccontr)
      assume "\<not> 5 \<le> n"
      then have "n \<le> 4" by simp
      from split_size_small [OF n0 this s] \<open>1 \<le> t\<close> show False by simp
    qed
  next
    assume "5 \<le> n"
    then show "1 \<le> t" using s by (rule split_size_ge_one)
  qed
  have c: "t = 0 \<and> n - t = n \<and>
           getitem xs (n - t) = Inl KeyError"
    if "1 \<le> n \<and> n \<le> 4"
  proof -
    from that b have z: "t = 0" using t0 by linarith
    have "\<not> (\<exists>d. getitem xs (n - t) = Inr d)"
      using a z by simp
    then obtain e where "getitem xs (n - t) = Inl e"
      by (cases "getitem xs (n - t)") auto
    with getitem_KeyError [OF this] z show ?thesis by simp
  qed
  from a b c show ?thesis by blast
qed

theorem x_test_in_range_iff_witness:
  "map fst (ds_of_series demo_Y_df ''HUFL'') = [0..n_time_of demo_Y_df - 1] \<and>
   split_sizes (n_time_of demo_Y_df) = Inr (1, 1) \<and>
   getitem (ds_of_series demo_Y_df ''HUFL'') (n_time_of demo_Y_df - 1) = Inr 4 \<and>
   split_sizes 3 = Inr (0, 0) \<and>
   getitem [(0, 10), (1, 11), (2, 12 :: timestamp)] (3 - 0) = Inl KeyError"
proof -
  have n: "n_time_of demo_Y_df = 5" by code_simp
  have x: "ds_of_series demo_Y_df ''HUFL'' = [(0, 0), (1, 1), (2, 2), (3, 3), (4, 4)]"
    by code_simp
  have s5: "split_sizes 5 = Inr (1, 1)" by code_simp
  have s3: "split_sizes 3 = Inr (0, 0)" by code_simp
  have i5: "map fst [(0, 0), (1, 1), (2, 2), (3, 3), (4, 4 :: timestamp)] = [0..5 - 1]"
    by code_simp
  have i3: "map fst [(0, 10), (1, 11), (2, 12 :: timestamp)] = [0..3 - 1]"
    by code_simp
  have n5: "(0::int) \<le> 5" and n3: "(0::int) \<le> 3" by simp_all
  from x_test_in_range_iff [OF i5 n5 s5] x_test_in_range_iff [OF i3 n3 s3] s5 s3 i5
  show ?thesis unfolding n x by (auto simp: getitem_def)
qed

section \<open>The evaluation arrays\<close>

lemma unique_nonempty: "s \<noteq> [] \<Longrightarrow> unique s \<noteq> []"
  by (cases s) (auto simp: unique_def)

lemma n_series_of_pos: "Y \<noteq> [] \<Longrightarrow> 1 \<le> n_series_of Y"
proof -
  assume "Y \<noteq> []"
  then have "column unique_id Y \<noteq> []" by (simp add: column_def)
  then have "unique (column unique_id Y) \<noteq> []" by (rule unique_nonempty)
  then have "0 < length (unique (column unique_id Y))" by simp
  then have "1 \<le> int (length (unique (column unique_id Y)))" by linarith
  then show ?thesis by (simp only: n_series_of_def)
qed

lemma reshape_windows:
  assumes "1 \<le> ns" and "0 < h"
  shows "reshape a [ns, - 1, h] =
           (if (ns * h) dvd int (prod_list (shape a))
            then Inr \<lparr>shape = [nat ns, nat (int (prod_list (shape a)) div (ns * h)), nat h],
                      data = data a\<rparr>
            else Inl ValueError)"
proof -
  have k: "ns * h \<noteq> 0" using assms by simp
  show ?thesis
    using assms k by (auto simp: reshape_def Let_def dvd_eq_mod_eq_0)
qed

text \<open>
  Claim C10. In the evaluation step \<open>y_true\<close> and \<open>y_hat\<close> are two columns of the same
  frame \<open>fcst_df\<close>, so they have the same length. For a frame \<open>Y_df\<close> with at least one
  row (so \<open>n_series \<ge> 1\<close>) and a positive horizon, each reshape to
  \<open>(n_series, -1, horizon)\<close> succeeds exactly when that length is divisible by
  \<open>n_series * horizon\<close>, and then both arrays have the shape
  \<open>(n_series, n_windows, horizon)\<close>, with \<open>n_windows\<close> the quotient.
\<close>

theorem reshape_to_windows:
  fixes Y :: "'z row_scheme frame" and F :: "cv_row frame"
  assumes "Y \<noteq> []" and "0 < h"
  shows "prod_list (shape (series_values (column cv_y F))) = length F \<and>
         prod_list (shape (series_values (column AutoNHITS F))) = length F \<and>
         length (data (series_values (column cv_y F))) =
           length (data (series_values (column AutoNHITS F))) \<and>
         ((\<exists>a. reshape (series_values (column cv_y F)) [n_series_of Y, - 1, h] = Inr a)
            \<longleftrightarrow> (n_series_of Y * h) dvd int (length F)) \<and>
         ((\<exists>b. reshape (series_values (column AutoNHITS F)) [n_series_of Y, - 1, h] = Inr b)
            \<longleftrightarrow> (n_series_of Y * h) dvd int (length F)) \<and>
         (\<forall>a b. reshape (series_values (column cv_y F)) [n_series_of Y, - 1, h] = Inr a \<and>
                reshape (series_values (column AutoNHITS F)) [n_series_of Y, - 1, h] = Inr b \<longrightarrow>
                shape a = [nat (n_series_of Y), nat (int (length F) div (n_series_of Y * h)), nat h] \<and>
                shape b = shape a)"
proof -
  have ns: "1 \<le> n_series_of Y" using assms(1) by (rule n_series_of_pos)
  have st: "prod_list (shape (series_values (column cv_y F))) = length F"
    and sh: "prod_list (shape (series_values (column AutoNHITS F))) = length F"
    by (simp_all add: series_values_def column_def)
  show ?thesis
    unfolding reshape_windows [OF ns assms(2)] st sh
    by (auto simp: series_values_def column_def)
qed


lemma length_demo_fcst_df: "length demo_fcst_df = 269472"
  by (simp add: demo_fcst_df_def)

lemma n_series_demo: "n_series_of demo_Y_df = 7"
  by code_simp

theorem reshape_to_windows_witness:
  "demo_Y_df \<noteq> [] \<and> (0::int) < 96 \<and>
   (n_series_of demo_Y_df * 96) dvd int (length demo_fcst_df) \<and>
   (\<exists>a. reshape (series_values (column cv_y demo_fcst_df)) [n_series_of demo_Y_df, - 1, 96]
          = Inr a) \<and>
   (\<exists>b. reshape (series_values (column AutoNHITS demo_fcst_df)) [n_series_of demo_Y_df, - 1, 96]
          = Inr b)"
proof -
  have y: "demo_Y_df \<noteq> []" by code_simp
  have h: "(0::int) < 96" by simp
  have d: "(n_series_of demo_Y_df * 96) dvd int (length demo_fcst_df)"
    by (simp add: n_series_demo length_demo_fcst_df)
  from reshape_to_windows [OF y h, of demo_fcst_df] y d show ?thesis by simp
qed

section \<open>Running the notebook\<close>

lemma lib_call_Inr:
  "lib_call c r k g = Inr g' \<longleftrightarrow> (\<exists>v. r = Inr v \<and> k v (logged [c] g) = Inr g')"
  by (cases r) (simp_all add: lib_call_def)

lemma ext_Inr:
  "ext W c g = Inr g' \<longleftrightarrow> lib_effect W (trace g) c = None \<and> g' = logged [c] g"
  by (auto simp: ext_def lib_call_Inr split: option.splits)

lemma thn_Inr: "thn r k = Inr x \<longleftrightarrow> (\<exists>v. r = Inr v \<and> k v = Inr x)"
  by (cases r) (simp_all add: thn_def)

lemma run_stmts_Cons_Inr:
  "run_stmts (s # ss) W g = Inr g' \<longleftrightarrow> (\<exists>g1. s W g = Inr g1 \<and> run_stmts ss W g1 = Inr g')"
  by (cases "s W g") simp_all


lemmas run_simps = run_stmts_Cons_Inr lib_call_Inr ext_Inr thn_Inr logged_def






















lemma cell_load_result:
  assumes "run_stmts cell_load W g = Inr g'"
  shows "lib_load W ''./'' ''ETTm2'' \<noteq> Inl e \<and>
         n_time g' = n_time_of (Y_df g') \<and>
         split_sizes (n_time g') = Inr (val_size g', test_size g')"
  using assms
  by (auto simp: cell_load_def run_simps split_sizes_Inr simp del: run_stmts.simps(2))

lemma to_datetime_index: "to_datetime conv s = Inr s' \<Longrightarrow> map fst s' = map fst s"
proof -
  have t: "traverse conv xs = Inr vs \<Longrightarrow> length vs = length xs" for xs vs
    by (induction xs arbitrary: vs) (auto split: sum.splits)
  assume "to_datetime conv s = Inr s'"
  then obtain vs where v: "traverse conv (map snd s) = Inr vs" and s': "s' = zip (map fst s) vs"
    by (auto simp: to_datetime_def split: sum.splits)
  from t [OF v] have "length vs = length (map fst s)" by simp
  then show ?thesis unfolding s' by simp
qed

lemma cell_plot_data_result:
  assumes "run_stmts cell_plot_data W g = Inr g'"
  shows "map fst (x_plot g') = map fst (ds_of_series (Y_df g) ''HUFL'') \<and>
         getitem (x_plot g') (n_time g - val_size g - test_size g) = Inr (x_val g') \<and>
         getitem (x_plot g') (n_time g - test_size g) = Inr (x_test g')"
  using assms
  by (auto simp: cell_plot_data_def run_simps simp del: run_stmts.simps(2)
      dest: to_datetime_index)

lemma plot_data_needs_rows:
  assumes "run_stmts cell_plot_data W g = Inr g'"
  shows "Y_df g \<noteq> []"
proof
  assume e: "Y_df g = []"
  from cell_plot_data_result [OF assms]
  have "map fst (x_plot g') = map fst (ds_of_series (Y_df g) ''HUFL'')"
    and "getitem (x_plot g') (n_time g - test_size g) = Inr (x_test g')" by simp_all
  then show False using e
    by (simp add: ds_of_series_def select_rows_def column_def getitem_def)
qed

lemma ext_list_horizon:
  "run_stmts ss W g0 = Inr g1 \<Longrightarrow> list_all (\<lambda>s. \<exists>c. s = (\<lambda>W. ext W c)) ss \<Longrightarrow>
   horizon g1 = horizon g0"
  by (induction ss arbitrary: g0)
     (auto simp: run_stmts_Cons_Inr ext_Inr logged_def simp del: run_stmts.simps(2))

lemma cell_config_result:
  assumes "run_stmts cell_config W g = Inr g'"
  shows "horizon g' = 96 \<and> nhits_config g' = nhits_config_dict 96"
  using assms
  by (auto simp: cell_config_def run_stmts_Cons_Inr thn_Inr list_all_iff
      simp del: run_stmts.simps(2) dest!: ext_list_horizon)

lemma cell_fit_delegates:
  assumes "run_stmts cell_fit W g = Inr g'"
  shows "\<exists>m. lib_AutoNHITS W (horizon g) (nhits_config g) 5 = Inr m \<and>
             lib_NeuralForecast W [m] ''15min'' = Inr (fcst g') \<and>
             lib_cross_validation W (fcst g') (Y_df g) (val_size g) (test_size g) None =
               Inr (fcst_df g')"
  using assms
  by (auto simp: cell_fit_def run_simps simp del: run_stmts.simps(2))

lemma cell_parse_result:
  assumes "run_stmts cell_parse W g = Inr g'"
  shows "reshape (series_values (column cv_y (fcst_df g))) [n_series_of (Y_df g), - 1, horizon g]
           = Inr (y_true g') \<and>
         reshape (series_values (column AutoNHITS (fcst_df g)))
           [n_series_of (Y_df g), - 1, horizon g] = Inr (y_hat g')"
  using assms
  by (auto simp: cell_parse_def run_simps simp del: run_stmts.simps(2))

lemma cell_metrics_delegates:
  assumes "run_stmts cell_metrics W g = Inr g'"
  shows "\<exists>a b. lib_mae W (y_hat g) (y_true g) = Inr a \<and> lib_mse W (y_hat g) (y_true g) = Inr b"
  using assms
  by (auto simp: cell_metrics_def run_simps simp del: run_stmts.simps(2))

section \<open>Two runs of the notebook\<close>
































section \<open>The calls, the cells and the data of the notebook\<close>






text \<open>
  Claim C5. The notebook has 14 code cells among its 28 cells, 13 of them with a statement:
  about 15.
\<close>

theorem code_cell_count:
  "length (filter is_code notebook) = 14 \<and>
   length (filter (\<lambda>c. cell_body c \<noteq> []) notebook) = 13 \<and>
   length notebook = 28 \<and>
   \<bar>int (length (filter is_code notebook)) - 15\<bar> \<le> 1"
  by (simp add: notebook_def cell_install_def cell_imports_def cell_logging_def cell_cuda_def
      cell_load_def cell_plot_data_def cell_series_ids_def cell_config_def cell_fit_def
      cell_best_config_def cell_parse_def cell_plot_forecasts_def cell_metrics_def
      cell_empty_def)

text \<open>
  Claim C6. \<open>nhits_config\<close> maps twelve distinct hyperparameter names to \<open>ray.tune\<close>
  domains: eleven \<open>tune.choice\<close> domains and one \<open>tune.randint\<close> domain, and no value of
  another kind.
\<close>

theorem nhits_config_is_search_space:
  "list_all is_domain (map snd (nhits_config_dict h)) \<and>
   length (filter is_choice (map snd (nhits_config_dict h))) = 11 \<and>
   length (filter is_randint (map snd (nhits_config_dict h))) = 1 \<and>
   length (nhits_config_dict h) = 12 \<and>
   distinct (map fst (nhits_config_dict h))"
  by (simp add: nhits_config_dict_def)


end
